theory Spec2Isabelle
  imports Complex_Main
begin

section \<open>Numeric model\<close>

text \<open>
  The sources compute in \<^verbatim>\<open>float\<close>, \<^verbatim>\<open>double\<close> and the template type
  \<^verbatim>\<open>T_Prec\<close>. Two models are used.

  \<^item> Where a computation only adds, subtracts, multiplies and compares values that the
    caller supplies as finite numbers (the shrink-wrap controller and the elementwise
    operators), a floating-point value is a \<^typ>\<open>real\<close>: arithmetic is exact, rounding and
    overflow are not modelled.
  \<^item> The Gaussian-kernel builders divide by \<^verbatim>\<open>rSigma\<close>, which their own assertion
    \<^verbatim>\<open>rSigma >= 0\<close> allows to be zero. There a value is an \<open>fp\<close>: a finite real, one of
    the two infinities, or NaN, with the IEEE-754 rules for the special values and exact
    arithmetic on finite values. The sign of zero is not modelled: a zero divisor counts
    as \<open>+0\<close>.

  \<^verbatim>\<open>unsigned\<close> is \<^typ>\<open>nat\<close>, and where the source converts to \<^verbatim>\<open>unsigned\<close> or
  subtracts, multiplies or counts in it, the reduction modulo \<open>2 ^ 32\<close> is written
  out. \<^verbatim>\<open>int\<close> is \<^typ>\<open>int\<close>: signed overflow, which C++ leaves undefined, is not
  modelled. A buffer is the list of its elements, and the length of the list is the
  capacity the caller really supplies.
\<close>

datatype fp = Finite real | PlusInf | MinusInf | NaN

fun fp_mul :: "fp \<Rightarrow> fp \<Rightarrow> fp" where
  "fp_mul NaN y = NaN"
| "fp_mul x NaN = NaN"
| "fp_mul (Finite x) (Finite y) = Finite (x * y)"
| "fp_mul (Finite x) PlusInf = (if x = 0 then NaN else if 0 < x then PlusInf else MinusInf)"
| "fp_mul (Finite x) MinusInf = (if x = 0 then NaN else if 0 < x then MinusInf else PlusInf)"
| "fp_mul PlusInf (Finite y) = (if y = 0 then NaN else if 0 < y then PlusInf else MinusInf)"
| "fp_mul MinusInf (Finite y) = (if y = 0 then NaN else if 0 < y then MinusInf else PlusInf)"
| "fp_mul PlusInf PlusInf = PlusInf"
| "fp_mul PlusInf MinusInf = MinusInf"
| "fp_mul MinusInf PlusInf = MinusInf"
| "fp_mul MinusInf MinusInf = PlusInf"

fun fp_div :: "fp \<Rightarrow> fp \<Rightarrow> fp" where
  "fp_div NaN y = NaN"
| "fp_div x NaN = NaN"
| "fp_div (Finite x) (Finite y) =
     (if y = 0 then (if x = 0 then NaN else if 0 < x then PlusInf else MinusInf)
      else Finite (x / y))"
| "fp_div (Finite x) PlusInf = Finite 0"
| "fp_div (Finite x) MinusInf = Finite 0"
| "fp_div PlusInf (Finite y) = (if 0 \<le> y then PlusInf else MinusInf)"
| "fp_div MinusInf (Finite y) = (if 0 \<le> y then MinusInf else PlusInf)"
| "fp_div PlusInf PlusInf = NaN"
| "fp_div PlusInf MinusInf = NaN"
| "fp_div MinusInf PlusInf = NaN"
| "fp_div MinusInf MinusInf = NaN"

fun fp_add :: "fp \<Rightarrow> fp \<Rightarrow> fp" where
  "fp_add NaN y = NaN"
| "fp_add x NaN = NaN"
| "fp_add (Finite x) (Finite y) = Finite (x + y)"
| "fp_add (Finite x) PlusInf = PlusInf"
| "fp_add (Finite x) MinusInf = MinusInf"
| "fp_add PlusInf (Finite y) = PlusInf"
| "fp_add MinusInf (Finite y) = MinusInf"
| "fp_add PlusInf PlusInf = PlusInf"
| "fp_add PlusInf MinusInf = NaN"
| "fp_add MinusInf PlusInf = NaN"
| "fp_add MinusInf MinusInf = MinusInf"

fun fp_exp :: "fp \<Rightarrow> fp" where
  "fp_exp (Finite x) = Finite (exp x)"
| "fp_exp PlusInf = PlusInf"
| "fp_exp MinusInf = Finite 0"
| "fp_exp NaN = NaN"

text \<open>
  What stops a call before it returns: a failed \<^verbatim>\<open>assert\<close>, or an access to a buffer
  at an index outside it.
\<close>

datatype failure = AssertionFailed | OutOfBounds nat

text \<open>
  \<^verbatim>\<open>assert(c)\<close> aborts when \<open>c\<close> is false, unless the translation unit is compiled with
  \<^verbatim>\<open>NDEBUG\<close>, where it does nothing. \<open>assertion ndebug c\<close> tells whether execution
  continues.
\<close>

definition assertion :: "bool \<Rightarrow> bool \<Rightarrow> bool" where
  "assertion ndebug c = (if ndebug then True else c)"

section \<open>Gaussian kernel builder (\<^verbatim>\<open>libs/calcGaussianKernel.tpp\<close>)\<close>

text \<open>The fallback definition of \<^verbatim>\<open>M_PI\<close> in the source file.\<close>

definition M_PI :: real where
  "M_PI = 3141592653589793238462643383279502884 / 10 ^ 36"

text \<open>
  First loop of \<^verbatim>\<open>calcGaussianKernel\<close>:
  \<^verbatim>\<open>for ( int i = -nNeighbors; i <= nNeighbors; ++i )\<close>, which stores
  \<^verbatim>\<open>a*exp( i*i*b )\<close> at \<^verbatim>\<open>rWeights[nNeighbors+i]\<close> and adds it to
  \<^verbatim>\<open>sumWeightings\<close>. The product \<^verbatim>\<open>i*i\<close> is an \<^verbatim>\<open>int\<close>.
\<close>

function fillWeights :: "fp \<Rightarrow> fp \<Rightarrow> int \<Rightarrow> int \<Rightarrow> fp list \<times> fp \<Rightarrow> fp list \<times> fp" where
  "fillWeights a b nNeighbors i (rWeights, sumWeightings) =
     (if i \<le> nNeighbors then
        (let weight = fp_mul a (fp_exp (fp_mul (Finite (of_int (i * i))) b))
         in fillWeights a b nNeighbors (i + 1)
              (rWeights[nat (nNeighbors + i) := weight], fp_add sumWeightings weight))
      else (rWeights, sumWeightings))"
  by pat_completeness auto
termination
  by (relation "measure (\<lambda>(a, b, n, i, st). nat (n + 1 - i))") auto

declare fillWeights.simps [simp del]

text \<open>Second loop: \<^verbatim>\<open>rWeights[nNeighbors+i] /= sumWeightings\<close>.\<close>

function scaleWeights :: "fp \<Rightarrow> int \<Rightarrow> int \<Rightarrow> fp list \<Rightarrow> fp list" where
  "scaleWeights sumWeightings nNeighbors i rWeights =
     (if i \<le> nNeighbors then
        scaleWeights sumWeightings nNeighbors (i + 1)
          (rWeights[nat (nNeighbors + i) :=
             fp_div (rWeights ! nat (nNeighbors + i)) sumWeightings])
      else rWeights)"
  by pat_completeness auto
termination
  by (relation "measure (\<lambda>(s, n, i, ws). nat (n + 1 - i))") auto

declare scaleWeights.simps [simp del]

text \<open>
  \<^verbatim>\<open>calcGaussianKernel( rSigma, rWeights, rnWeights, rMinAbsoluteError )\<close>. The buffer
  is \<open>None\<close> for a null pointer and otherwise the list of its elements; the result is
  the returned length and the buffer after the call. The cast
  \<^verbatim>\<open>(unsigned) nWeights\<close> reduces modulo \<open>2 ^ 32\<close>.
\<close>

definition calcGaussianKernel ::
  "bool \<Rightarrow> real \<Rightarrow> fp list option \<Rightarrow> nat \<Rightarrow> real \<Rightarrow> failure + int \<times> fp list option" where
  "calcGaussianKernel ndebug rSigma rWeights rnWeights rMinAbsoluteError =
     (if \<not> assertion ndebug (rWeights \<noteq> None) then Inl AssertionFailed
      else if \<not> assertion ndebug (0 < rMinAbsoluteError) then Inl AssertionFailed
      else if \<not> assertion ndebug (0 \<le> rSigma) then Inl AssertionFailed
      else
        (let nNeighbors = \<lceil>2.884402748387961466 * rSigma - 0.5\<rceil>;
             nWeights = 2 * nNeighbors + 1
         in if \<not> assertion ndebug (0 < nWeights) then Inl AssertionFailed
            else
              (case rWeights of
                 None \<Rightarrow> Inr (nWeights, None)
               | Some ws \<Rightarrow>
                   if nat (nWeights mod 2 ^ 32) > rnWeights then Inr (nWeights, Some ws)
                   else
                     (let a = fp_div (Finite 1) (fp_mul (Finite (sqrt (2 * M_PI))) (Finite rSigma));
                          b = fp_div (Finite (- 1))
                                (fp_mul (fp_mul (Finite 2) (Finite rSigma)) (Finite rSigma));
                          (ws1, sumWeightings) =
                             fillWeights a b nNeighbors (- nNeighbors) (ws, Finite 0);
                          ws2 = scaleWeights sumWeightings nNeighbors (- nNeighbors) ws1
                      in Inr (nWeights, Some ws2)))))"


text \<open>
  \<^verbatim>\<open>calcGaussianKernel2d\<close>. The weight at \<open>(ix, iy)\<close>: the differences
  \<^verbatim>\<open>ix - rCenterX\<close> and \<^verbatim>\<open>iy - rCenterY\<close> are computed in \<^verbatim>\<open>unsigned\<close>, hence
  modulo \<open>2 ^ 32\<close>; \<^verbatim>\<open>std::abs\<close> of an unsigned value is that value, converted to
  \<^verbatim>\<open>double\<close>.
\<close>

definition kernel2dWeight ::
  "fp \<Rightarrow> fp \<Rightarrow> fp \<Rightarrow> nat \<Rightarrow> nat \<Rightarrow> nat \<Rightarrow> nat \<Rightarrow> nat \<Rightarrow> nat \<Rightarrow> fp" where
  "kernel2dWeight a bx by rCenterX rCenterY rnWeightsX rnWeightsY ix iy =
     (let dx = real_of_int ((int ix - int rCenterX) mod 2 ^ 32);
          dy = real_of_int ((int iy - int rCenterY) mod 2 ^ 32);
          x = min dx \<bar>dx - real rnWeightsX\<bar>;
          y = min dy \<bar>dy - real rnWeightsY\<bar>
      in fp_mul a (fp_exp (fp_add (fp_mul (Finite (x * x)) bx) (fp_mul (Finite (y * y)) by))))"

text \<open>
  The inner loop \<^verbatim>\<open>for ( auto iy = 0u; iy < rnWeightsY; ++iy )\<close> for one \<open>ix\<close>. The
  store \<^verbatim>\<open>rWeights[ iy * rnWeightsX + ix ] = weight\<close> fails when the index is outside
  the buffer.
\<close>

function fillColumn ::
  "(nat \<Rightarrow> nat \<Rightarrow> fp) \<Rightarrow> nat \<Rightarrow> nat \<Rightarrow> nat \<Rightarrow> nat \<Rightarrow> fp list \<times> fp \<Rightarrow> failure + fp list \<times> fp" where
  "fillColumn weightAt rnWeightsX rnWeightsY ix iy (rWeights, sumWeightings) =
     (if iy < rnWeightsY then
        (let weight = weightAt ix iy;
             idx = (iy * rnWeightsX + ix) mod 2 ^ 32
         in if length rWeights \<le> idx then Inl (OutOfBounds idx)
            else fillColumn weightAt rnWeightsX rnWeightsY ix (iy + 1)
                   (rWeights[idx := weight], fp_add sumWeightings weight))
      else Inr (rWeights, sumWeightings))"
  by pat_completeness auto
termination
  by (relation "measure (\<lambda>(w, nx, ny, ix, iy, st). ny - iy)") auto

declare fillColumn.simps [simp del]

text \<open>The outer loop \<^verbatim>\<open>for ( auto ix = 0u; ix < rnWeightsX; ++ix )\<close>.\<close>

function fillKernel2d ::
  "(nat \<Rightarrow> nat \<Rightarrow> fp) \<Rightarrow> nat \<Rightarrow> nat \<Rightarrow> nat \<Rightarrow> fp list \<times> fp \<Rightarrow> failure + fp list \<times> fp" where
  "fillKernel2d weightAt rnWeightsX rnWeightsY ix st =
     (if ix < rnWeightsX then
        (case fillColumn weightAt rnWeightsX rnWeightsY ix 0 st of
           Inl e \<Rightarrow> Inl e
         | Inr st' \<Rightarrow> fillKernel2d weightAt rnWeightsX rnWeightsY (ix + 1) st')
      else Inr st)"
  by pat_completeness auto
termination
  by (relation "measure (\<lambda>(w, nx, ny, ix, st). nx - ix)") auto

declare fillKernel2d.simps [simp del]

text \<open>
  The normalisation loop
  \<^verbatim>\<open>for ( auto i = 0u; i <= rnWeightsX * rnWeightsY; ++i ) rWeights[i] /= sumWeightings;\<close>
  with \<open>bound\<close> the value of \<^verbatim>\<open>rnWeightsX * rnWeightsY\<close>. The counter is an
  \<^verbatim>\<open>unsigned\<close>: after \<open>2 ^ 32 - 1\<close> it is \<open>0\<close> again, so the loop need not end and the
  result is an option.
\<close>

partial_function (option) normalize2d ::
  "fp \<Rightarrow> nat \<Rightarrow> nat \<Rightarrow> fp list \<Rightarrow> (failure + fp list) option" where
  "normalize2d sumWeightings bound i rWeights =
     (if i \<le> bound then
        (if length rWeights \<le> i then Some (Inl (OutOfBounds i))
         else normalize2d sumWeightings bound ((i + 1) mod 2 ^ 32)
                (rWeights[i := fp_div (rWeights ! i) sumWeightings]))
      else Some (Inr rWeights))"

text \<open>
  \<^verbatim>\<open>calcGaussianKernel2d( rSigma, rCenterX, rCenterY, rWeights, rnWeightsX, rnWeightsY )\<close>:
  the assertions (\<^verbatim>\<open>rnWeightsX >= 0\<close> and \<^verbatim>\<open>rnWeightsY >= 0\<close> always hold for an
  \<^verbatim>\<open>unsigned\<close>), the three constants, the filling loops and the normalisation loop. A
  null buffer, which only a build with \<^verbatim>\<open>NDEBUG\<close> lets through, has no valid index.
\<close>

definition calcGaussianKernel2d ::
  "bool \<Rightarrow> real \<Rightarrow> nat \<Rightarrow> nat \<Rightarrow> fp list option \<Rightarrow> nat \<Rightarrow> nat \<Rightarrow> (failure + fp list) option" where
  "calcGaussianKernel2d ndebug rSigma rCenterX rCenterY rWeights rnWeightsX rnWeightsY =
     (if \<not> assertion ndebug (0 \<le> rSigma) then Some (Inl AssertionFailed)
      else if \<not> assertion ndebug (rCenterX \<le> rnWeightsX) then Some (Inl AssertionFailed)
      else if \<not> assertion ndebug (rCenterY \<le> rnWeightsY) then Some (Inl AssertionFailed)
      else if \<not> assertion ndebug (rWeights \<noteq> None) then Some (Inl AssertionFailed)
      else
        (let sigmaX = Finite rSigma;
             sigmaY = Finite rSigma;
             a = fp_div (Finite 1) (fp_mul (fp_mul (Finite (2 * M_PI)) sigmaX) sigmaY);
             bx = fp_div (Finite (- 1)) (fp_mul (fp_mul (Finite 2) sigmaX) sigmaX);
             by = fp_div (Finite (- 1)) (fp_mul (fp_mul (Finite 2) sigmaY) sigmaY);
             ws = (case rWeights of None \<Rightarrow> [] | Some ws \<Rightarrow> ws)
         in case fillKernel2d
                   (kernel2dWeight a bx by rCenterX rCenterY rnWeightsX rnWeightsY)
                   rnWeightsX rnWeightsY 0 (ws, Finite 0) of
              Inl e \<Rightarrow> Some (Inl e)
            | Inr (ws1, sumWeightings) \<Rightarrow>
                normalize2d sumWeightings ((rnWeightsX * rnWeightsY) mod 2 ^ 32) 0 ws1))"


section \<open>Elementwise operators and reductions\<close>

text \<open>
  A complex number is the pair of its real and imaginary part (\<^verbatim>\<open>fftwf_complex\<close>,
  \<^verbatim>\<open>cufftComplex\<close>). An operator that writes each of the first \<open>n\<close> elements of a
  buffer from the element of the same index returns the buffer with these elements
  replaced. The buffers passed to an operator hold at least \<open>n\<close> elements.
\<close>

type_synonym cplx = "real \<times> real"

text \<open>
  Modelled from the spec: \<^verbatim>\<open>complexNormElementwise\<close>
  (\<^verbatim>\<open>algorithms/vectorElementwise.hpp\<close> is not among the sources), after
  \<open>complex_norm(dst_real, src_complex, N): dst[i] = |src[i]|\<close>.
\<close>

definition complexNormElementwise :: "real list \<Rightarrow> cplx list \<Rightarrow> nat \<Rightarrow> real list" where
  "complexNormElementwise rDataTarget rDataSource rnElements =
     map (\<lambda>i. sqrt (fst (rDataSource ! i) * fst (rDataSource ! i) +
                    snd (rDataSource ! i) * snd (rDataSource ! i))) [0..<rnElements]
     @ drop rnElements rDataTarget"

text \<open>
  Modelled from the spec: \<^verbatim>\<open>applyComplexModulus\<close> (its kernel is only declared in
  \<^verbatim>\<open>cudaVectorElementwise.hpp\<close>), after
  \<open>modulus_projection(dst_complex, src_complex, amplitude_real, N)\<close>:
  if \<open>|src[i]| > 0\<close> then \<open>dst[i] = src[i] \<cdot> (amplitude[i] / |src[i]|)\<close>, and if
  \<open>|src[i]| = 0\<close> then \<open>dst[i] = amplitude[i] + 0i\<close>.
\<close>

definition applyComplexModulus :: "cplx list \<Rightarrow> cplx list \<Rightarrow> real list \<Rightarrow> nat \<Rightarrow> cplx list" where
  "applyComplexModulus rDataTarget rDataSource rComplexModulus rnElements =
     map (\<lambda>i. let re = fst (rDataSource ! i);
                  im = snd (rDataSource ! i);
                  norm = sqrt (re * re + im * im)
              in if 0 < norm
                 then (re * (rComplexModulus ! i / norm), im * (rComplexModulus ! i / norm))
                 else (rComplexModulus ! i, 0)) [0..<rnElements]
     @ drop rnElements rDataTarget"

text \<open>
  Modelled from the spec: \<^verbatim>\<open>cudaCutOff\<close> (its kernel is only declared), after
  \<open>cutoff(data_real, N, threshold, low, high): data[i] = (data[i] < threshold) ? low : high\<close>.
\<close>

definition cudaCutOff :: "real list \<Rightarrow> nat \<Rightarrow> real \<Rightarrow> real \<Rightarrow> real \<Rightarrow> real list" where
  "cudaCutOff rData rnElements rThreshold rLowerValue rUpperValue =
     map (\<lambda>i. if rData ! i < rThreshold then rLowerValue else rUpperValue) [0..<rnElements]
     @ drop rnElements rData"

text \<open>
  Modelled from the spec: \<^verbatim>\<open>calculateHioError\<close> (\<^verbatim>\<open>libs/hybridInputOutput.hpp\<close> is
  not among the sources), after the masked complex-norm error:
  \<open>total_error\<close> is the sum of \<open>sqrt(Re(z[i])\<^sup>2 + Im(z[i])\<^sup>2)\<close> over the \<open>i\<close> with
  \<open>M[i] = 1\<close>, \<open>n_masked\<close> the sum of \<open>1\<close> over the same \<open>i\<close>, and the pair is returned;
  the invert-mask flag swaps the roles of \<open>0\<close> and \<open>1\<close>.
\<close>

definition calculateHioError :: "cplx list \<Rightarrow> real list \<Rightarrow> nat \<Rightarrow> bool \<Rightarrow> real \<times> real" where
  "calculateHioError rData rIsMasked rnElements rInvertMask =
     (let masked = filter (\<lambda>i. rIsMasked ! i = (if rInvertMask then 0 else 1)) [0..<rnElements]
      in (sum_list (map (\<lambda>i. sqrt (fst (rData ! i) * fst (rData ! i) +
                                   snd (rData ! i) * snd (rData ! i))) masked),
          sum_list (map (\<lambda>i. 1) masked)))"

text \<open>
  The domain-constraint loop of the HIO step, \<^verbatim>\<open>shrinkWrap.cpp\<close> lines 261 to 274,
  from index \<open>i\<close> on: \<^verbatim>\<open>if ( isMasked[i] == 1 or curData[i][0] < 0 )\<close> then both
  components of \<^verbatim>\<open>gPrevious[i]\<close> are decreased by \<^verbatim>\<open>rHioBeta\<close> times the component
  of \<^verbatim>\<open>curData[i]\<close>, else \<^verbatim>\<open>gPrevious[i]\<close> becomes \<^verbatim>\<open>curData[i]\<close>. The buffer is
  updated in place, element by element.
\<close>

function applyHioDomainConstraintsFrom ::
  "nat \<Rightarrow> cplx list \<Rightarrow> cplx list \<Rightarrow> real list \<Rightarrow> nat \<Rightarrow> real \<Rightarrow> cplx list" where
  "applyHioDomainConstraintsFrom i gPrevious curData isMasked nElements rHioBeta =
     (if i < nElements then
        applyHioDomainConstraintsFrom (i + 1)
          (gPrevious[i :=
             (if isMasked ! i = 1 \<or> fst (curData ! i) < 0
              then (fst (gPrevious ! i) - rHioBeta * fst (curData ! i),
                    snd (gPrevious ! i) - rHioBeta * snd (curData ! i))
              else (fst (curData ! i), snd (curData ! i)))])
          curData isMasked nElements rHioBeta
      else gPrevious)"
  by pat_completeness auto
termination
  by (relation "measure (\<lambda>(i, g, c, m, n, b). n - i)") auto

declare applyHioDomainConstraintsFrom.simps [simp del]

text \<open>
  The whole loop, \<^verbatim>\<open>for ( unsigned i = 0; i < nElements; ++i )\<close>. The CUDA path calls
  \<^verbatim>\<open>cudaApplyHioDomainConstraints\<close> with the same arguments; its kernel is only
  declared, and is taken to be this loop.
\<close>

definition applyHioDomainConstraints ::
  "cplx list \<Rightarrow> cplx list \<Rightarrow> real list \<Rightarrow> nat \<Rightarrow> real \<Rightarrow> cplx list" where
  "applyHioDomainConstraints gPrevious curData isMasked nElements rHioBeta =
     applyHioDomainConstraintsFrom 0 gPrevious curData isMasked nElements rHioBeta"

text \<open>
  The threshold loop of \<^verbatim>\<open>shrinkWrap.cpp\<close>:
  \<^verbatim>\<open>isMasked[i] = isMasked[i] < threshold ? 1 : 0\<close>.
\<close>

definition thresholdMask :: "real list \<Rightarrow> nat \<Rightarrow> real \<Rightarrow> real list" where
  "thresholdMask isMasked nElements threshold =
     map (\<lambda>i. if isMasked ! i < threshold then 1 else 0) [0..<nElements]
     @ drop nElements isMasked"

text \<open>
  \<^verbatim>\<open>curData[i][0] = rIntensity[i]; curData[i][1] = 0\<close> for \<open>i < nElements\<close>
  (\<^verbatim>\<open>cudaCopyToRealPart\<close> on the CUDA path), and the copy back
  \<^verbatim>\<open>rIntensity[i] = curData[i][0]\<close> (\<^verbatim>\<open>cudaCopyFromRealPart\<close>).
\<close>

definition copyToRealPart :: "cplx list \<Rightarrow> real list \<Rightarrow> nat \<Rightarrow> cplx list" where
  "copyToRealPart rTargetComplexArray rSourceRealArray rnElements =
     map (\<lambda>i. (rSourceRealArray ! i, 0)) [0..<rnElements] @ drop rnElements rTargetComplexArray"

definition copyFromRealPart :: "real list \<Rightarrow> cplx list \<Rightarrow> nat \<Rightarrow> real list" where
  "copyFromRealPart rTargetRealArray rSourceComplexArray rnElements =
     map (\<lambda>i. fst (rSourceComplexArray ! i)) [0..<rnElements] @ drop rnElements rTargetRealArray"

section \<open>Shrink-wrap controller\<close>

text \<open>
  The facilities the controller calls and whose code is not part of it: the two FFT
  plans (\<^verbatim>\<open>toRealSpace\<close> transforms \<^verbatim>\<open>curData\<close> in place, \<^verbatim>\<open>toFreqSpace\<close> transforms
  \<^verbatim>\<open>gPrevious\<close> into \<^verbatim>\<open>curData\<close>; both get the dimensions), the in-place Gaussian blur
  \<^verbatim>\<open>gaussianBlur( data, Nx, Ny, sigma )\<close> and the reduction \<^verbatim>\<open>vectorMax( data, n )\<close>.
  They are parameters of the model; every theorem holds for all of them.
\<close>

record facilities =
  toRealSpace :: "nat list \<Rightarrow> cplx list \<Rightarrow> cplx list"
  toFreqSpace :: "nat list \<Rightarrow> cplx list \<Rightarrow> cplx list"
  gaussianBlur :: "real list \<Rightarrow> nat \<Rightarrow> nat \<Rightarrow> real \<Rightarrow> real list"
  vectorMax :: "real list \<Rightarrow> nat \<Rightarrow> real"

text \<open>The parameters after the image and its size, in the order of the signature.\<close>

record parameters =
  rnCycles :: nat
  rTargetError :: real
  rHioBeta :: real
  rIntensityCutOffAutoCorel :: real
  rIntensityCutOff :: real
  rSigma0 :: real
  rSigmaChange :: real
  rnHioCycles :: nat

text \<open>The working buffers and the blur scale.\<close>

record buffers =
  curData :: "cplx list"
  gPrevious :: "cplx list"
  isMasked :: "real list"
  sigma :: real

text \<open>
  What a call leaves behind: the returned status, the caller's image buffer after the
  call (\<open>None\<close> for a null pointer), the number of buffers the call allocated, and
  \<open>states\<close>: the working state before the first outer cycle followed by the state at
  the end of every outer cycle that ran (empty when the call returned before the
  buffers existed). Messages on the console and the debug files are not modelled.
\<close>

record outcome =
  status :: int
  ioData :: "real list option"
  nAllocated :: nat
  states :: "buffers list"

text \<open>
  A call stopped by a failed assertion returns nothing; what is recorded is the number
  of buffers allocated until then and the caller's image buffer at that moment.
\<close>

datatype abort = AssertionAbort nat "real list option"

subsection \<open>CPU path (\<^verbatim>\<open>algorithms/shrinkWrap.cpp\<close>)\<close>

text \<open>
  \<^verbatim>\<open>if ( rTargetError <= 0 ) rTargetError = 1e-5;\<close> and the six lines after it. There is
  no such line for \<^verbatim>\<open>rnCycles\<close>.
\<close>

definition shrinkWrapDefaults :: "parameters \<Rightarrow> parameters" where
  "shrinkWrapDefaults p =
     p\<lparr> rTargetError := (if rTargetError p \<le> 0 then 1 / 10 ^ 5 else rTargetError p),
        rnHioCycles := (if rnHioCycles p = 0 then 20 else rnHioCycles p),
        rHioBeta := (if rHioBeta p \<le> 0 then 0.9 else rHioBeta p),
        rIntensityCutOffAutoCorel :=
          (if rIntensityCutOffAutoCorel p \<le> 0 then 0.04 else rIntensityCutOffAutoCorel p),
        rIntensityCutOff := (if rIntensityCutOff p \<le> 0 then 0.2 else rIntensityCutOff p),
        rSigma0 := (if rSigma0 p \<le> 0 then 3.0 else rSigma0 p),
        rSigmaChange := (if rSigmaChange p \<le> 0 then 0.01 else rSigmaChange p) \<rparr>"

text \<open>
  The mask update at the head of an outer cycle: \<^verbatim>\<open>complexNormElementwise\<close>,
  \<^verbatim>\<open>gaussianBlur\<close>, \<^verbatim>\<open>vectorMax\<close>, the threshold loop with
  \<^verbatim>\<open>rIntensityCutOff * absMax\<close>, then
  \<^verbatim>\<open>sigma = fmax( 1.5, ( 1 - rSigmaChange ) * sigma )\<close>.
\<close>

definition updateMask :: "facilities \<Rightarrow> nat \<Rightarrow> nat \<Rightarrow> nat \<Rightarrow> parameters \<Rightarrow> buffers \<Rightarrow> buffers" where
  "updateMask fac Nx Ny nElements p st =
     (let norms = complexNormElementwise (isMasked st) (curData st) nElements;
          blurred = gaussianBlur fac norms Nx Ny (sigma st);
          absMax = vectorMax fac blurred nElements;
          threshold = rIntensityCutOff p * absMax
      in st\<lparr> isMasked := thresholdMask blurred nElements threshold,
              sigma := max 1.5 ((1 - rSigmaChange p) * sigma st) \<rparr>)"

text \<open>
  One HIO iteration: the domain constraints, \<^verbatim>\<open>fftwf_execute( toFreqSpace )\<close>,
  \<^verbatim>\<open>applyComplexModulus( curData, curData, rIntensity, nElements )\<close>,
  \<^verbatim>\<open>fftwf_execute( toRealSpace )\<close>.
\<close>

definition hioStep ::
  "facilities \<Rightarrow> nat list \<Rightarrow> nat \<Rightarrow> real list \<Rightarrow> parameters \<Rightarrow> buffers \<Rightarrow> buffers" where
  "hioStep fac rSize nElements rIntensity p st =
     (let g = applyHioDomainConstraints (gPrevious st) (curData st) (isMasked st) nElements
                (rHioBeta p);
          G = toFreqSpace fac rSize g;
          G' = applyComplexModulus G G rIntensity nElements
      in st\<lparr> gPrevious := g, curData := toRealSpace fac rSize G' \<rparr>)"

text \<open>\<^verbatim>\<open>for ( unsigned iHioCycle = 0; iHioCycle < rnHioCycles; ++iHioCycle )\<close>.\<close>

function hioLoop ::
  "facilities \<Rightarrow> nat list \<Rightarrow> nat \<Rightarrow> real list \<Rightarrow> parameters \<Rightarrow> nat \<Rightarrow> buffers \<Rightarrow> buffers" where
  "hioLoop fac rSize nElements rIntensity p iHioCycle st =
     (if iHioCycle < rnHioCycles p
      then hioLoop fac rSize nElements rIntensity p (iHioCycle + 1)
             (hioStep fac rSize nElements rIntensity p st)
      else st)"
  by pat_completeness auto
termination
  by (relation "measure (\<lambda>(fac, rSize, n, I, p, i, st). rnHioCycles p - i)") auto

declare hioLoop.simps [simp del]

text \<open>
  The outer loop
  \<^verbatim>\<open>for ( unsigned iCycleShrinkWrap = 0; iCycleShrinkWrap < rnCycles; ++iCycleShrinkWrap )\<close>
  with its two \<^verbatim>\<open>break\<close>s. The result lists the state at the end of each cycle that ran.
  \<^verbatim>\<open>currentError\<close> is taken to be the total error of the masked norm; no property
  below depends on its value.
\<close>

function shrinkWrapCycles ::
  "facilities \<Rightarrow> nat list \<Rightarrow> nat \<Rightarrow> real list \<Rightarrow> parameters \<Rightarrow> nat \<Rightarrow> buffers \<Rightarrow> buffers list" where
  "shrinkWrapCycles fac rSize nElements rIntensity p iCycleShrinkWrap st =
     (if iCycleShrinkWrap < rnCycles p then
        (let st1 = updateMask fac (rSize ! 0) (rSize ! 1) nElements p st;
             st2 = hioLoop fac rSize nElements rIntensity p 0 st1;
             currentError = fst (calculateHioError (curData st2) (isMasked st2) nElements False)
         in if rTargetError p > 0 \<and> currentError < rTargetError p then [st2]
            else if iCycleShrinkWrap \<ge> rnCycles p then [st2]
            else st2 # shrinkWrapCycles fac rSize nElements rIntensity p
                         (iCycleShrinkWrap + 1) st2)
      else [])"
  by pat_completeness auto
termination
  by (relation "measure (\<lambda>(fac, rSize, n, I, p, i, st). rnCycles p - i)") auto

declare shrinkWrapCycles.simps [simp del]

text \<open>
  The loop
  \<^verbatim>\<open>for ( unsigned i = 0; i < rSize.size(); ++i ) { assert( rSize[i] > 0 ); nElements *= rSize[i]; }\<close>,
  from \<^verbatim>\<open>nElements = 1\<close>; the product is an \<^verbatim>\<open>unsigned\<close>.
\<close>

fun countElements :: "bool \<Rightarrow> nat list \<Rightarrow> nat \<Rightarrow> failure + nat" where
  "countElements ndebug [] nElements = Inr nElements"
| "countElements ndebug (n # rSize) nElements =
     (if \<not> assertion ndebug (0 < n) then Inl AssertionFailed
      else countElements ndebug rSize ((nElements * n) mod 2 ^ 32))"

text \<open>
  From the allocation of the buffers to the entry of the outer loop: the three buffers
  come from \<^verbatim>\<open>fftwf_alloc_complex\<close> and \<^verbatim>\<open>new float[]\<close> (each is written in full
  before it is read, so what they hold at first does not matter and is taken to be
  zero); the intensity is copied into \<^verbatim>\<open>curData\<close> and transformed; the first mask is
  made from its modulus, blurred and cut at \<^verbatim>\<open>rIntensityCutOffAutoCorel * absMax\<close>; then
  \<^verbatim>\<open>curData\<close> is filled with the intensity again and copied to \<^verbatim>\<open>gPrevious\<close>.
\<close>

definition shrinkWrapInit ::
  "facilities \<Rightarrow> nat list \<Rightarrow> nat \<Rightarrow> real list \<Rightarrow> parameters \<Rightarrow> buffers" where
  "shrinkWrapInit fac rSize nElements rIntensity p =
     (let curData0 = copyToRealPart (replicate nElements (0, 0)) rIntensity nElements;
          curData1 = toRealSpace fac rSize curData0;
          norms = complexNormElementwise (replicate nElements 0) curData1 nElements;
          blurred = gaussianBlur fac norms (rSize ! 0) (rSize ! 1) (rSigma0 p);
          absMax = vectorMax fac blurred nElements;
          threshold = rIntensityCutOffAutoCorel p * absMax;
          isMasked0 = thresholdMask blurred nElements threshold;
          curData2 = copyToRealPart curData1 rIntensity nElements;
          gPrevious0 = map (\<lambda>i. (fst (curData2 ! i), snd (curData2 ! i))) [0..<nElements]
      in \<lparr> curData = curData2, gPrevious = gPrevious0, isMasked = isMasked0,
            sigma = rSigma0 p \<rparr>)"

text \<open>
  \<^verbatim>\<open>shrinkWrap( rIntensity, rSize, rnCycles, ..., rnHioCycles )\<close>: the two early
  returns, the defaults, the element count, the initialisation, the outer loop, and
  the copy of the real part of \<^verbatim>\<open>curData\<close> back into \<^verbatim>\<open>rIntensity\<close>.
\<close>

definition shrinkWrap ::
  "bool \<Rightarrow> facilities \<Rightarrow> real list option \<Rightarrow> nat list \<Rightarrow> parameters \<Rightarrow> abort + outcome" where
  "shrinkWrap ndebug fac rIntensity rSize p0 =
     (if length rSize \<noteq> 2
      then Inr \<lparr> status = 1, ioData = rIntensity, nAllocated = 0, states = [] \<rparr>
      else
        (case rIntensity of
           None \<Rightarrow> Inr \<lparr> status = 1, ioData = rIntensity, nAllocated = 0, states = [] \<rparr>
         | Some intensity \<Rightarrow>
             (let p = shrinkWrapDefaults p0
              in case countElements ndebug rSize 1 of
                   Inl e \<Rightarrow> Inl (AssertionAbort 0 rIntensity)
                 | Inr nElements \<Rightarrow>
                     (let st0 = shrinkWrapInit fac rSize nElements intensity p;
                          run = shrinkWrapCycles fac rSize nElements intensity p 0 st0;
                          final = last (st0 # run)
                      in Inr \<lparr> status = 0,
                               ioData = Some (copyFromRealPart intensity (curData final) nElements),
                               nAllocated = 3,
                               states = st0 # run \<rparr>))))"

subsection \<open>CUDA path (\<^verbatim>\<open>algorithms/cuda/cudaShrinkWrap.cpp\<close>)\<close>

text \<open>
  \<^verbatim>\<open>if ( rnCycles == 0 ) rnCycles = 20;\<close> and the seven lines after it.
\<close>

definition cudaShrinkWrapDefaults :: "parameters \<Rightarrow> parameters" where
  "cudaShrinkWrapDefaults p =
     p\<lparr> rnCycles := (if rnCycles p = 0 then 20 else rnCycles p),
        rTargetError := (if rTargetError p \<le> 0 then 1 / 10 ^ 5 else rTargetError p),
        rHioBeta := (if rHioBeta p \<le> 0 then 0.9 else rHioBeta p),
        rIntensityCutOffAutoCorel :=
          (if rIntensityCutOffAutoCorel p \<le> 0 then 0.04 else rIntensityCutOffAutoCorel p),
        rIntensityCutOff := (if rIntensityCutOff p \<le> 0 then 0.2 else rIntensityCutOff p),
        rSigma0 := (if rSigma0 p \<le> 0 then 3.0 else rSigma0 p),
        rSigmaChange := (if rSigmaChange p \<le> 0 then 0.01 else rSigmaChange p),
        rnHioCycles := (if rnHioCycles p = 0 then 20 else rnHioCycles p) \<rparr>"

text \<open>
  The mask update of cycle \<open>iCycleShrinkWrap\<close>: \<^verbatim>\<open>cudaComplexNormElementwise\<close>,
  \<^verbatim>\<open>cudaGaussianBlur\<close>, \<^verbatim>\<open>cudaVectorMax\<close>, then
  \<^verbatim>\<open>threshold = ( iCycleShrinkWrap == 0 ? rIntensityCutOffAutoCorel : rIntensityCutOff ) * absMax\<close>,
  \<^verbatim>\<open>cudaCutOff( ..., threshold, 1.0f, 0.0f )\<close> and
  \<^verbatim>\<open>sigma = fmax( 1.5f, ( 1.0f - rSigmaChange ) * sigma )\<close>; in cycle \<open>0\<close> the
  \<open>nElements\<close> elements of \<^verbatim>\<open>dpCurData\<close> are then copied to \<^verbatim>\<open>dpgPrevious\<close>.
\<close>

definition cudaUpdateMask ::
  "facilities \<Rightarrow> nat \<Rightarrow> nat \<Rightarrow> nat \<Rightarrow> parameters \<Rightarrow> nat \<Rightarrow> buffers \<Rightarrow> buffers" where
  "cudaUpdateMask fac rImageWidth rImageHeight nElements p iCycleShrinkWrap st =
     (let norms = complexNormElementwise (isMasked st) (curData st) nElements;
          blurred = gaussianBlur fac norms rImageWidth rImageHeight (sigma st);
          absMax = vectorMax fac blurred nElements;
          threshold = (if iCycleShrinkWrap = 0 then rIntensityCutOffAutoCorel p
                       else rIntensityCutOff p) * absMax;
          st1 = st\<lparr> isMasked := cudaCutOff blurred nElements threshold 1 0,
                    sigma := max 1.5 ((1 - rSigmaChange p) * sigma st) \<rparr>
      in if iCycleShrinkWrap = 0
         then st1\<lparr> gPrevious := map (\<lambda>i. curData st1 ! i) [0..<nElements]
                                  @ drop nElements (gPrevious st1) \<rparr>
         else st1)"

function cudaShrinkWrapCycles ::
  "facilities \<Rightarrow> nat \<Rightarrow> nat \<Rightarrow> nat \<Rightarrow> real list \<Rightarrow> parameters \<Rightarrow> nat \<Rightarrow> buffers \<Rightarrow> buffers list" where
  "cudaShrinkWrapCycles fac rImageWidth rImageHeight nElements dpIntensity p iCycleShrinkWrap st =
     (if iCycleShrinkWrap < rnCycles p then
        (let st1 = cudaUpdateMask fac rImageWidth rImageHeight nElements p iCycleShrinkWrap st;
             st2 = hioLoop fac [rImageWidth, rImageHeight] nElements dpIntensity p 0 st1;
             currentError = fst (calculateHioError (curData st2) (isMasked st2) nElements False)
         in if rTargetError p > 0 \<and> currentError < rTargetError p then [st2]
            else if iCycleShrinkWrap \<ge> rnCycles p then [st2]
            else st2 # cudaShrinkWrapCycles fac rImageWidth rImageHeight nElements dpIntensity p
                         (iCycleShrinkWrap + 1) st2)
      else [])"
  by pat_completeness auto
termination
  by (relation "measure (\<lambda>(fac, w, h, n, I, p, i, st). rnCycles p - i)") auto

declare cudaShrinkWrapCycles.simps [simp del]

text \<open>
  From the allocation to the entry of the outer loop: four device buffers come from
  \<^verbatim>\<open>mallocCudaArray\<close> and one host buffer from \<^verbatim>\<open>new float[]\<close>; the image is copied
  to \<^verbatim>\<open>dpIntensity\<close>, from there into the real part of \<^verbatim>\<open>dpCurData\<close>, and
  transformed. \<^verbatim>\<open>dpgPrevious\<close> and \<^verbatim>\<open>dpIsMasked\<close> are written in cycle 0 before they
  are read; what they hold at first is taken to be zero.
\<close>

definition cudaShrinkWrapInit ::
  "facilities \<Rightarrow> nat \<Rightarrow> nat \<Rightarrow> nat \<Rightarrow> real list \<Rightarrow> parameters \<Rightarrow> buffers" where
  "cudaShrinkWrapInit fac rImageWidth rImageHeight nElements dpIntensity p =
     (let curData0 = copyToRealPart (replicate nElements (0, 0)) dpIntensity nElements;
          curData1 = toRealSpace fac [rImageWidth, rImageHeight] curData0
      in \<lparr> curData = curData1, gPrevious = replicate nElements (0, 0),
            isMasked = replicate nElements 0, sigma = rSigma0 p \<rparr>)"

text \<open>
  \<^verbatim>\<open>cudaShrinkWrap( rKernelConfig, rIoData, rImageWidth, rImageHeight, rnCycles, ... )\<close>.
  The arguments are checked by \<^verbatim>\<open>assert\<close> only. The kernel configuration and the
  stream do not enter the computed values. At the end the real part of \<^verbatim>\<open>dpCurData\<close>
  goes to \<^verbatim>\<open>dpIntensity\<close> and from there to \<^verbatim>\<open>rIoData\<close>.
\<close>

definition cudaShrinkWrap ::
  "bool \<Rightarrow> facilities \<Rightarrow> real list option \<Rightarrow> nat \<Rightarrow> nat \<Rightarrow> parameters \<Rightarrow> abort + outcome" where
  "cudaShrinkWrap ndebug fac rIoData rImageWidth rImageHeight p0 =
     (if \<not> assertion ndebug (0 < rImageWidth) then Inl (AssertionAbort 0 rIoData)
      else if \<not> assertion ndebug (0 < rImageHeight) then Inl (AssertionAbort 0 rIoData)
      else if \<not> assertion ndebug (rIoData \<noteq> None) then Inl (AssertionAbort 0 rIoData)
      else
        (let p = cudaShrinkWrapDefaults p0;
             nElements = (rImageWidth * rImageHeight) mod 2 ^ 32;
             ioData0 = (case rIoData of None \<Rightarrow> [] | Some d \<Rightarrow> d);
             dpIntensity = map (\<lambda>i. ioData0 ! i) [0..<nElements];
             st0 = cudaShrinkWrapInit fac rImageWidth rImageHeight nElements dpIntensity p;
             run = cudaShrinkWrapCycles fac rImageWidth rImageHeight nElements dpIntensity p 0 st0;
             final = last (st0 # run);
             dpIntensity' = copyFromRealPart dpIntensity (curData final) nElements
         in Inr \<lparr> status = 0,
                  ioData = Some (map (\<lambda>i. dpIntensity' ! i) [0..<nElements] @ drop nElements ioData0),
                  nAllocated = 5,
                  states = st0 # run \<rparr>))"


text \<open>
  The defaulting in the words of the specification: a parameter passed as its
  non-positive sentinel (0 for the two counts, a value \<open>\<le> 0\<close> for the others) is taken
  as the documented default \<open>nCycles = 20\<close>, \<open>target_error = 1e-5\<close>, \<open>beta = 0.9\<close>,
  \<open>rIntensityCutOffAutoCorel = 0.04\<close>, \<open>rIntensityCutOff = 0.20\<close>, \<open>sigma0 = 3.0\<close>,
  \<open>sigma_change = 0.01\<close>, \<open>nHioCycles = 20\<close>.
\<close>

definition documentedDefaults :: "parameters \<Rightarrow> parameters" where
  "documentedDefaults p =
     \<lparr> rnCycles = (if rnCycles p = 0 then 20 else rnCycles p),
       rTargetError = (if rTargetError p \<le> 0 then 1 / 10 ^ 5 else rTargetError p),
       rHioBeta = (if rHioBeta p \<le> 0 then 0.9 else rHioBeta p),
       rIntensityCutOffAutoCorel =
         (if rIntensityCutOffAutoCorel p \<le> 0 then 0.04 else rIntensityCutOffAutoCorel p),
       rIntensityCutOff = (if rIntensityCutOff p \<le> 0 then 0.20 else rIntensityCutOff p),
       rSigma0 = (if rSigma0 p \<le> 0 then 3.0 else rSigma0 p),
       rSigmaChange = (if rSigmaChange p \<le> 0 then 0.01 else rSigmaChange p),
       rnHioCycles = (if rnHioCycles p = 0 then 20 else rnHioCycles p) \<rparr>"

text \<open>
  A stand-in for the facilities, to run the model on concrete images: transforms and
  blur that leave the data as it is, and the maximum of the first \<open>n\<close> elements.
\<close>

definition plainFacilities :: facilities where
  "plainFacilities =
     \<lparr> toRealSpace = (\<lambda>rSize data. data),
       toFreqSpace = (\<lambda>rSize data. data),
       gaussianBlur = (\<lambda>data Nx Ny sigma. data),
       vectorMax = (\<lambda>data n. fold max (take n data) 0) \<rparr>"

text \<open>The documented defaults, passed explicitly.\<close>

definition defaultParameters :: parameters where
  "defaultParameters =
     \<lparr> rnCycles = 20, rTargetError = 1 / 10 ^ 5, rHioBeta = 0.9,
       rIntensityCutOffAutoCorel = 0.04, rIntensityCutOff = 0.20, rSigma0 = 3.0,
       rSigmaChange = 0.01, rnHioCycles = 20 \<rparr>"

section \<open>Properties of the Gaussian kernel builder\<close>

lemma fp_div_NaN_right: "fp_div x NaN = NaN"
  by (cases x) auto

lemma fp_mul_NaN_right: "fp_mul x NaN = NaN"
  by (cases x) auto

lemma fp_add_NaN_right: "fp_add x NaN = NaN"
  by (cases x) auto

lemma ceiling_minus_half: "\<lceil>- (1 / 2) :: real\<rceil> = 0"
  by (simp add: ceiling_eq_iff)






text \<open>
  Claim C5, as the code has it. With \<^verbatim>\<open>rSigma = 0\<close> and room for one weight the builder
  returns the length 1, but the weight it writes is NaN and not 1.0: \<open>a\<close> is
  \<open>1 / 0 = +\<infinity>\<close>, \<open>b\<close> is \<open>-1 / 0 = -\<infinity>\<close>, the exponent \<^verbatim>\<open>i*i*b\<close> is
  \<open>0 \<cdot> -\<infinity> = NaN\<close>, and the normalisation divides NaN by NaN.
\<close>

theorem calcGaussianKernel_sigma_zero:
  assumes "1 \<le> rnWeights" and "rnWeights \<le> length ws" and "0 < rMinAbsoluteError"
  shows "calcGaussianKernel ndebug 0 (Some ws) rnWeights rMinAbsoluteError =
           Inr (1, Some (ws[0 := NaN]))"
proof -
  have fill: "fillWeights PlusInf MinusInf 0 0 (ws, Finite 0) = (ws[0 := NaN], NaN)"
    by (subst fillWeights.simps, simp add: Let_def, subst fillWeights.simps, simp)
  have scale: "scaleWeights NaN 0 0 (ws[0 := NaN]) = ws[0 := NaN]"
    by (subst scaleWeights.simps, simp add: fp_div_NaN_right, subst scaleWeights.simps, simp)
  show ?thesis
    using assms
    by (simp add: calcGaussianKernel_def assertion_def Let_def ceiling_minus_half fill scale)
qed

theorem calcGaussianKernel_sigma_zero_witness:
  "calcGaussianKernel False 0 (Some [Finite 0]) 1 (1 / 10 ^ 7) = Inr (1, Some [NaN])"
  using calcGaussianKernel_sigma_zero [of 1 "[Finite 0]" "1 / 10 ^ 7" False] by simp



text \<open>
  The two filling loops of the 2D builder stay inside a buffer of
  \<^verbatim>\<open>rnWeightsX * rnWeightsY\<close> elements.
\<close>

lemma fillColumn_in_bounds:
  "rnWeightsY - iy = m \<Longrightarrow> ix < rnWeightsX \<Longrightarrow> length ws = rnWeightsX * rnWeightsY \<Longrightarrow>
   rnWeightsX * rnWeightsY < 2 ^ 32 \<Longrightarrow>
   \<exists>ws' s'. fillColumn weightAt rnWeightsX rnWeightsY ix iy (ws, s) = Inr (ws', s') \<and>
            length ws' = length ws"
proof (induction m arbitrary: iy ws s)
  case 0
  then show ?case by (simp add: fillColumn.simps)
next
  case (Suc m)
  then have lt: "iy < rnWeightsY" and m: "rnWeightsY - (iy + 1) = m" by simp_all
  have "iy * rnWeightsX + ix < iy * rnWeightsX + rnWeightsX" using Suc.prems(2) by simp
  also have "\<dots> = (iy + 1) * rnWeightsX" by simp
  also have "\<dots> \<le> rnWeightsY * rnWeightsX" using lt by (intro mult_le_mono1) simp
  finally have idx: "iy * rnWeightsX + ix < rnWeightsX * rnWeightsY"
    by (simp add: mult.commute)
  then have small: "iy * rnWeightsX + ix < 4294967296"
    using Suc.prems(4) by simp
  define ws1 where "ws1 = ws[iy * rnWeightsX + ix := weightAt ix iy]"
  have len1: "length ws1 = rnWeightsX * rnWeightsY" using Suc.prems(3) by (simp add: ws1_def)
  from Suc.IH [OF m Suc.prems(2) len1 Suc.prems(4), of "fp_add s (weightAt ix iy)"]
  obtain ws' s' where
    "fillColumn weightAt rnWeightsX rnWeightsY ix (iy + 1) (ws1, fp_add s (weightAt ix iy)) =
       Inr (ws', s')"
    and "length ws' = length ws1" by blast
  then show ?case using lt idx Suc.prems(3) len1
    by (subst fillColumn.simps) (simp add: Let_def small ws1_def)
qed

lemma fillKernel2d_in_bounds:
  "rnWeightsX - ix = m \<Longrightarrow> length ws = rnWeightsX * rnWeightsY \<Longrightarrow>
   rnWeightsX * rnWeightsY < 2 ^ 32 \<Longrightarrow>
   \<exists>ws' s'. fillKernel2d weightAt rnWeightsX rnWeightsY ix (ws, s) = Inr (ws', s') \<and>
            length ws' = length ws"
proof (induction m arbitrary: ix ws s)
  case 0
  then show ?case by (simp add: fillKernel2d.simps)
next
  case (Suc m)
  then have lt: "ix < rnWeightsX" and m: "rnWeightsX - (ix + 1) = m" by simp_all
  from fillColumn_in_bounds [OF refl lt Suc.prems(2) Suc.prems(3), of weightAt 0 s]
  obtain ws1 s1 where
    col: "fillColumn weightAt rnWeightsX rnWeightsY ix 0 (ws, s) = Inr (ws1, s1)"
    and len1: "length ws1 = length ws" by blast
  from Suc.IH [OF m, of ws1 s1] len1 Suc.prems(2) Suc.prems(3)
  obtain ws' s' where
    "fillKernel2d weightAt rnWeightsX rnWeightsY (ix + 1) (ws1, s1) = Inr (ws', s')"
    and "length ws' = length ws1" by auto
  then show ?case using lt col len1
    by (subst fillKernel2d.simps) simp
qed

text \<open>
  The normalisation loop runs while \<open>i \<le> bound\<close>: on a buffer of at most \<open>bound\<close>
  elements it reaches the index one past the last element.
\<close>

lemma normalize2d_runs_off_the_end:
  "length ws - i = m \<Longrightarrow> i \<le> length ws \<Longrightarrow> length ws \<le> bound \<Longrightarrow> bound < 2 ^ 32 \<Longrightarrow>
   normalize2d s bound i ws = Some (Inl (OutOfBounds (length ws)))"
proof (induction m arbitrary: i ws)
  case 0
  then have "i = length ws" by simp
  then show ?case using 0 by (subst normalize2d.simps) simp
next
  case (Suc m)
  then have lt: "i < length ws" by simp
  then have "Suc i < 4294967296" using Suc.prems by simp
  then have wrap: "Suc i mod 4294967296 = Suc i" by (rule mod_less)
  have "normalize2d s bound (i + 1) (ws[i := fp_div (ws ! i) s]) =
          Some (Inl (OutOfBounds (length (ws[i := fp_div (ws ! i) s]))))"
    using Suc.prems lt by (intro Suc.IH) simp_all
  then show ?case using lt Suc.prems(3)
    by (subst normalize2d.simps) (simp add: wrap)
qed

text \<open>
  Claim C10, as the code has it. On a buffer of exactly \<^verbatim>\<open>rnWeightsX * rnWeightsY\<close>
  weights every call whose assertions hold ends in an access at the index
  \<^verbatim>\<open>rnWeightsX * rnWeightsY\<close>, one past the end: the filling loops stay inside the
  buffer, the normalisation loop runs up to and including that index.
\<close>

theorem calcGaussianKernel2d_out_of_bounds:
  assumes "0 \<le> rSigma" and "rCenterX \<le> rnWeightsX" and "rCenterY \<le> rnWeightsY"
    and len: "length ws = rnWeightsX * rnWeightsY"
    and small: "rnWeightsX * rnWeightsY < 2 ^ 32"
  shows "calcGaussianKernel2d ndebug rSigma rCenterX rCenterY (Some ws) rnWeightsX rnWeightsY =
           Some (Inl (OutOfBounds (rnWeightsX * rnWeightsY)))"
proof -
  define a where
    "a = fp_div (Finite 1) (fp_mul (fp_mul (Finite (2 * M_PI)) (Finite rSigma)) (Finite rSigma))"
  define b where
    "b = fp_div (Finite (- 1)) (fp_mul (fp_mul (Finite 2) (Finite rSigma)) (Finite rSigma))"
  from fillKernel2d_in_bounds [OF refl len small,
         of "kernel2dWeight a b b rCenterX rCenterY rnWeightsX rnWeightsY" 0 "Finite 0"]
  obtain ws1 s1 where
    fill: "fillKernel2d (kernel2dWeight a b b rCenterX rCenterY rnWeightsX rnWeightsY)
             rnWeightsX rnWeightsY 0 (ws, Finite 0) = Inr (ws1, s1)"
    and len1: "length ws1 = length ws" by blast
  have "normalize2d s1 ((rnWeightsX * rnWeightsY) mod 2 ^ 32) 0 ws1 =
          Some (Inl (OutOfBounds (length ws1)))"
    using len1 len small by (intro normalize2d_runs_off_the_end [OF refl]) simp_all
  then show ?thesis
    using assms(1-3) fill len1 len
    unfolding calcGaussianKernel2d_def Let_def a_def [symmetric] b_def [symmetric]
    by (simp add: assertion_def)
qed

theorem calcGaussianKernel2d_out_of_bounds_witness:
  "calcGaussianKernel2d False 1 0 0 (Some [Finite 0]) 1 1 = Some (Inl (OutOfBounds 1))"
  using calcGaussianKernel2d_out_of_bounds [of 1 0 1 0 1 "[Finite 0]" False] by simp

section \<open>Properties of the elementwise operators and the masked norm\<close>

text \<open>
  The loop started at \<open>j\<close> rewrites the elements from \<open>j\<close> up to \<open>nElements\<close>, each
  from its own old value, and leaves the others as they are.
\<close>

lemma applyHioDomainConstraintsFrom_nth:
  "nElements - j = m \<Longrightarrow> nElements \<le> length gPrev \<Longrightarrow>
   length (applyHioDomainConstraintsFrom j gPrev g' M nElements beta) = length gPrev \<and>
   (\<forall>k<length gPrev.
      applyHioDomainConstraintsFrom j gPrev g' M nElements beta ! k =
        (if j \<le> k \<and> k < nElements
         then (if M ! k = 1 \<or> fst (g' ! k) < 0
               then (fst (gPrev ! k) - beta * fst (g' ! k), snd (gPrev ! k) - beta * snd (g' ! k))
               else g' ! k)
         else gPrev ! k))"
proof (induction m arbitrary: j gPrev)
  case 0
  then have "\<not> j < nElements" by simp
  then show ?case by (auto simp: applyHioDomainConstraintsFrom.simps [of j])
next
  case (Suc m)
  then have lt: "j < nElements" and m: "nElements - (j + 1) = m" by simp_all
  define v where
    "v = (if M ! j = 1 \<or> fst (g' ! j) < 0
          then (fst (gPrev ! j) - beta * fst (g' ! j), snd (gPrev ! j) - beta * snd (g' ! j))
          else (fst (g' ! j), snd (g' ! j)))"
  have run: "applyHioDomainConstraintsFrom j gPrev g' M nElements beta =
             applyHioDomainConstraintsFrom (j + 1) (gPrev[j := v]) g' M nElements beta"
    using lt by (subst applyHioDomainConstraintsFrom.simps) (simp add: v_def)
  have len: "nElements \<le> length (gPrev[j := v])" using Suc.prems(2) by simp
  note IH = Suc.IH [OF m len]
  have jlen: "j < length gPrev" using lt Suc.prems(2) by simp
  show ?case
  proof (intro conjI allI impI)
    show "length (applyHioDomainConstraintsFrom j gPrev g' M nElements beta) = length gPrev"
      using IH run by simp
  next
    fix k assume k: "k < length gPrev"
    show "applyHioDomainConstraintsFrom j gPrev g' M nElements beta ! k =
        (if j \<le> k \<and> k < nElements
         then (if M ! k = 1 \<or> fst (g' ! k) < 0
               then (fst (gPrev ! k) - beta * fst (g' ! k), snd (gPrev ! k) - beta * snd (g' ! k))
               else g' ! k)
         else gPrev ! k)"
    proof (cases "k = j")
      case True
      then have "applyHioDomainConstraintsFrom j gPrev g' M nElements beta ! k = v"
        using IH run jlen by simp
      then show ?thesis using True lt by (simp add: v_def)
    next
      case False
      then show ?thesis using IH run k by auto
    qed
  qed
qed

text \<open>
  Claim C3. One application of the HIO domain constraints to buffers of \<open>nElements\<close>
  pixels, at a pixel \<open>i\<close>, for any mask and any \<open>beta\<close>: where the mask is 1 or the
  real part of \<open>g'\<close> is negative, the new previous iterate is the old one minus \<open>beta\<close>
  times \<open>g'\<close>, in both components; at every other pixel it is \<open>g'\<close>. The HIO step of
  the controller updates \<^verbatim>\<open>gPrevious\<close> by exactly this application.
\<close>

theorem hio_constraint_contract:
  assumes "i < nElements" and "nElements \<le> length gPrev"
  shows "(M ! i = 1 \<or> fst (g' ! i) < 0 \<longrightarrow>
            applyHioDomainConstraints gPrev g' M nElements beta ! i =
              (fst (gPrev ! i) - beta * fst (g' ! i),
               snd (gPrev ! i) - beta * snd (g' ! i))) \<and>
         (\<not> (M ! i = 1 \<or> fst (g' ! i) < 0) \<longrightarrow>
            applyHioDomainConstraints gPrev g' M nElements beta ! i = g' ! i) \<and>
         gPrevious (hioStep fac rSize nElements rIntensity p st) =
           applyHioDomainConstraints (gPrevious st) (curData st) (isMasked st) nElements
             (rHioBeta p)"
proof -
  have "i < length gPrev" using assms by simp
  with applyHioDomainConstraintsFrom_nth [OF refl assms(2), of 0 g' M beta] assms(1)
  have "applyHioDomainConstraints gPrev g' M nElements beta ! i =
          (if M ! i = 1 \<or> fst (g' ! i) < 0
           then (fst (gPrev ! i) - beta * fst (g' ! i), snd (gPrev ! i) - beta * snd (g' ! i))
           else g' ! i)"
    by (simp add: applyHioDomainConstraints_def)
  then show ?thesis by (simp add: hioStep_def Let_def)
qed

theorem hio_constraint_contract_witness:
  "applyHioDomainConstraints [(5, 5), (6, 6), (7, 7)] [(1, 2), (- 1, 2), (3, 4)] [1, 0, 0] 3
     (1 / 2) ! 0 = (9 / 2, 4) \<and>
   applyHioDomainConstraints [(5, 5), (6, 6), (7, 7)] [(1, 2), (- 1, 2), (3, 4)] [1, 0, 0] 3
     (1 / 2) ! 1 = (13 / 2, 5) \<and>
   applyHioDomainConstraints [(5, 5), (6, 6), (7, 7)] [(1, 2), (- 1, 2), (3, 4)] [1, 0, 0] 3
     (1 / 2) ! 2 = (3, 4)"
  using hio_constraint_contract
          [of 0 3 "[(5, 5), (6, 6), (7, 7)]" "[1, 0, 0]" "[(1, 2), (- 1, 2), (3, 4)]" "1 / 2"]
        hio_constraint_contract
          [of 1 3 "[(5, 5), (6, 6), (7, 7)]" "[1, 0, 0]" "[(1, 2), (- 1, 2), (3, 4)]" "1 / 2"]
        hio_constraint_contract
          [of 2 3 "[(5, 5), (6, 6), (7, 7)]" "[1, 0, 0]" "[(1, 2), (- 1, 2), (3, 4)]" "1 / 2"]
  by simp











section \<open>Properties of the shrink-wrap controller\<close>

text \<open>The HIO loop changes neither the mask nor sigma.\<close>

lemma hioStep_keeps: "isMasked (hioStep fac rSize n I p st) = isMasked st \<and> sigma (hioStep fac rSize n I p st) = sigma st"
  by (simp add: hioStep_def Let_def)

lemma hioLoop_keeps:
  "rnHioCycles p - i = m \<Longrightarrow>
   isMasked (hioLoop fac rSize n I p i st) = isMasked st \<and> sigma (hioLoop fac rSize n I p i st) = sigma st"
proof (induction m arbitrary: i st)
  case 0
  then show ?case by (subst (1 2) hioLoop.simps) simp
next
  case (Suc m)
  then have lt: "i < rnHioCycles p" and m: "rnHioCycles p - (i + 1) = m" by simp_all
  from Suc.IH [OF m, of "hioStep fac rSize n I p st"] lt
  show ?case by (subst (1 2) hioLoop.simps) (simp add: hioStep_keeps)
qed

text \<open>
  The state at the end of the \<open>k\<close>-th cycle that ran is the HIO loop applied to the
  mask update of the state before that cycle.
\<close>

lemma shrinkWrapCycles_nth:
  "rnCycles p - i = m \<Longrightarrow> k < length (shrinkWrapCycles fac rSize n I p i st) \<Longrightarrow>
   shrinkWrapCycles fac rSize n I p i st ! k =
     hioLoop fac rSize n I p 0
       (updateMask fac (rSize ! 0) (rSize ! 1) n p ((st # shrinkWrapCycles fac rSize n I p i st) ! k))"
proof (induction m arbitrary: i st k)
  case 0
  then have "shrinkWrapCycles fac rSize n I p i st = []" by (subst shrinkWrapCycles.simps) simp
  with 0 show ?case by simp
next
  case (Suc m)
  then have lt: "i < rnCycles p" and m: "rnCycles p - (i + 1) = m" by simp_all
  define st2 where "st2 = hioLoop fac rSize n I p 0 (updateMask fac (rSize ! 0) (rSize ! 1) n p st)"
  define rest where "rest = shrinkWrapCycles fac rSize n I p (i + 1) st2"
  have cases: "shrinkWrapCycles fac rSize n I p i st = [st2] \<or>
               shrinkWrapCycles fac rSize n I p i st = st2 # rest"
    using lt by (subst (1 2) shrinkWrapCycles.simps) (simp add: Let_def st2_def rest_def)
  show ?case
  proof (cases k)
    case 0
    then show ?thesis using cases by (auto simp: st2_def)
  next
    case (Suc k')
    with cases Suc.prems(2) have eq: "shrinkWrapCycles fac rSize n I p i st = st2 # rest"
      and k': "k' < length rest" by auto
    from Suc.IH [OF m, of k' st2] k'
    have "rest ! k' = hioLoop fac rSize n I p 0
       (updateMask fac (rSize ! 0) (rSize ! 1) n p ((st2 # rest) ! k'))"
      by (simp add: rest_def)
    then show ?thesis using eq Suc by simp
  qed
qed

lemma cudaShrinkWrapCycles_nth:
  "rnCycles p - i = m \<Longrightarrow> k < length (cudaShrinkWrapCycles fac W H n I p i st) \<Longrightarrow>
   cudaShrinkWrapCycles fac W H n I p i st ! k =
     hioLoop fac [W, H] n I p 0
       (cudaUpdateMask fac W H n p (i + k) ((st # cudaShrinkWrapCycles fac W H n I p i st) ! k))"
proof (induction m arbitrary: i st k)
  case 0
  then have "cudaShrinkWrapCycles fac W H n I p i st = []" by (subst cudaShrinkWrapCycles.simps) simp
  with 0 show ?case by simp
next
  case (Suc m)
  then have lt: "i < rnCycles p" and m: "rnCycles p - (i + 1) = m" by simp_all
  define st2 where "st2 = hioLoop fac [W, H] n I p 0 (cudaUpdateMask fac W H n p i st)"
  define rest where "rest = cudaShrinkWrapCycles fac W H n I p (i + 1) st2"
  have cases: "cudaShrinkWrapCycles fac W H n I p i st = [st2] \<or>
               cudaShrinkWrapCycles fac W H n I p i st = st2 # rest"
    using lt by (subst (1 2) cudaShrinkWrapCycles.simps) (simp add: Let_def st2_def rest_def)
  show ?case
  proof (cases k)
    case 0
    then show ?thesis using cases by (auto simp: st2_def)
  next
    case (Suc k')
    with cases Suc.prems(2) have eq: "cudaShrinkWrapCycles fac W H n I p i st = st2 # rest"
      and k': "k' < length rest" by auto
    from Suc.IH [OF m, of k' st2] k'
    have "rest ! k' = hioLoop fac [W, H] n I p 0
       (cudaUpdateMask fac W H n p (i + 1 + k') ((st2 # rest) ! k'))"
      by (simp add: rest_def)
    then show ?thesis using eq Suc by simp
  qed
qed



lemma updateMask_sigma:
  "sigma (updateMask fac Nx Ny n p st) = max 1.5 ((1 - rSigmaChange p) * sigma st)"
  by (simp add: updateMask_def Let_def)

lemma cudaUpdateMask_sigma:
  "sigma (cudaUpdateMask fac W H n p i st) = max 1.5 ((1 - rSigmaChange p) * sigma st)"
  by (simp add: cudaUpdateMask_def Let_def)




lemma shrinkWrap_run:
  assumes "length rSize = 2" and "countElements ndebug rSize 1 = Inr n"
  shows "shrinkWrap ndebug fac (Some I) rSize p0 =
     Inr \<lparr> status = 0,
           ioData = Some (copyFromRealPart I
                     (curData (last (shrinkWrapInit fac rSize n I (shrinkWrapDefaults p0) #
                        shrinkWrapCycles fac rSize n I (shrinkWrapDefaults p0) 0
                          (shrinkWrapInit fac rSize n I (shrinkWrapDefaults p0))))) n),
           nAllocated = 3,
           states = shrinkWrapInit fac rSize n I (shrinkWrapDefaults p0) #
                      shrinkWrapCycles fac rSize n I (shrinkWrapDefaults p0) 0
                        (shrinkWrapInit fac rSize n I (shrinkWrapDefaults p0)) \<rparr>"
  using assms by (simp add: shrinkWrap_def Let_def)

lemma shrinkWrap_states:
  assumes "shrinkWrap ndebug fac rIntensity rSize p0 = Inr out" and "states out \<noteq> []"
  shows "\<exists>I n. rIntensity = Some I \<and> length rSize = 2 \<and> countElements ndebug rSize 1 = Inr n \<and>
           states out = shrinkWrapInit fac rSize n I (shrinkWrapDefaults p0) #
                      shrinkWrapCycles fac rSize n I (shrinkWrapDefaults p0) 0
                        (shrinkWrapInit fac rSize n I (shrinkWrapDefaults p0))"
  using assms
  by (auto simp: shrinkWrap_def Let_def split: if_splits option.splits sum.splits)

lemma cudaShrinkWrap_run:
  assumes "cudaShrinkWrap ndebug fac rIoData W H p0 = Inr out"
  shows "\<exists>I. states out = cudaShrinkWrapInit fac W H ((W * H) mod 2 ^ 32) I (cudaShrinkWrapDefaults p0) #
           cudaShrinkWrapCycles fac W H ((W * H) mod 2 ^ 32) I (cudaShrinkWrapDefaults p0) 0
             (cudaShrinkWrapInit fac W H ((W * H) mod 2 ^ 32) I (cudaShrinkWrapDefaults p0)) \<and>
         status out = 0"
proof (rule exI [of _ "map (\<lambda>i. (case rIoData of None \<Rightarrow> [] | Some d \<Rightarrow> d) ! i) [0..<(W * H) mod 2 ^ 32]"])
  show "states out = cudaShrinkWrapInit fac W H ((W * H) mod 2 ^ 32)
           (map (\<lambda>i. (case rIoData of None \<Rightarrow> [] | Some d \<Rightarrow> d) ! i) [0..<(W * H) mod 2 ^ 32])
           (cudaShrinkWrapDefaults p0) #
           cudaShrinkWrapCycles fac W H ((W * H) mod 2 ^ 32)
             (map (\<lambda>i. (case rIoData of None \<Rightarrow> [] | Some d \<Rightarrow> d) ! i) [0..<(W * H) mod 2 ^ 32])
             (cudaShrinkWrapDefaults p0) 0
             (cudaShrinkWrapInit fac W H ((W * H) mod 2 ^ 32)
                (map (\<lambda>i. (case rIoData of None \<Rightarrow> [] | Some d \<Rightarrow> d) ! i) [0..<(W * H) mod 2 ^ 32])
                (cudaShrinkWrapDefaults p0)) \<and>
         status out = 0"
    using assms by (auto simp: cudaShrinkWrap_def Let_def split: if_splits)
qed

lemma shrinkWrapCycles_none: "rnCycles p = 0 \<Longrightarrow> shrinkWrapCycles fac rSize n I p 0 st = []"
  by (subst shrinkWrapCycles.simps) simp

lemma shrinkWrapCycles_some: "0 < rnCycles p \<Longrightarrow> shrinkWrapCycles fac rSize n I p 0 st \<noteq> []"
  by (subst shrinkWrapCycles.simps) (simp add: Let_def)

lemma cudaShrinkWrapCycles_some: "0 < rnCycles p \<Longrightarrow> cudaShrinkWrapCycles fac W H n I p 0 st \<noteq> []"
  by (subst cudaShrinkWrapCycles.simps) (simp add: Let_def)

lemma cudaShrinkWrap_valid:
  assumes "0 < W" and "0 < H"
  shows "cudaShrinkWrap ndebug fac (Some d) W H p0 =
     Inr \<lparr> status = 0,
           ioData = Some (map (\<lambda>i. copyFromRealPart (map (\<lambda>i. d ! i) [0..<(W * H) mod 2 ^ 32])
                     (curData (last (cudaShrinkWrapInit fac W H ((W * H) mod 2 ^ 32) (map (\<lambda>i. d ! i) [0..<(W * H) mod 2 ^ 32]) (cudaShrinkWrapDefaults p0) #
                        cudaShrinkWrapCycles fac W H ((W * H) mod 2 ^ 32) (map (\<lambda>i. d ! i) [0..<(W * H) mod 2 ^ 32]) (cudaShrinkWrapDefaults p0) 0
                          (cudaShrinkWrapInit fac W H ((W * H) mod 2 ^ 32) (map (\<lambda>i. d ! i) [0..<(W * H) mod 2 ^ 32]) (cudaShrinkWrapDefaults p0))))) ((W * H) mod 2 ^ 32) ! i) [0..<(W * H) mod 2 ^ 32] @ drop ((W * H) mod 2 ^ 32) d),
           nAllocated = 5,
           states = cudaShrinkWrapInit fac W H ((W * H) mod 2 ^ 32) (map (\<lambda>i. d ! i) [0..<(W * H) mod 2 ^ 32]) (cudaShrinkWrapDefaults p0) #
                        cudaShrinkWrapCycles fac W H ((W * H) mod 2 ^ 32) (map (\<lambda>i. d ! i) [0..<(W * H) mod 2 ^ 32]) (cudaShrinkWrapDefaults p0) 0
                          (cudaShrinkWrapInit fac W H ((W * H) mod 2 ^ 32) (map (\<lambda>i. d ! i) [0..<(W * H) mod 2 ^ 32]) (cudaShrinkWrapDefaults p0)) \<rparr>"
  using assms by (simp add: cudaShrinkWrap_def Let_def assertion_def)

lemma cuda_defaults_default: "cudaShrinkWrapDefaults defaultParameters = defaultParameters"
  by (simp add: cudaShrinkWrapDefaults_def defaultParameters_def)

lemma cpu_defaults_default: "shrinkWrapDefaults defaultParameters = defaultParameters"
  by (simp add: shrinkWrapDefaults_def defaultParameters_def)


lemma shrinkWrap_projr:
  assumes "length rSize = 2" and "countElements ndebug rSize 1 = Inr n"
    and "0 < rnCycles (shrinkWrapDefaults p)"
  shows "shrinkWrap ndebug fac (Some I) rSize p = Inr (projr (shrinkWrap ndebug fac (Some I) rSize p)) \<and>
         Suc 0 < length (states (projr (shrinkWrap ndebug fac (Some I) rSize p))) \<and>
         states (projr (shrinkWrap ndebug fac (Some I) rSize p)) ! 0 =
           shrinkWrapInit fac rSize n I (shrinkWrapDefaults p)"
proof -
  note run = shrinkWrap_run [OF assms(1,2), of fac I p]
  have "shrinkWrapCycles fac rSize n I (shrinkWrapDefaults p) 0
          (shrinkWrapInit fac rSize n I (shrinkWrapDefaults p)) \<noteq> []"
    by (rule shrinkWrapCycles_some [OF assms(3)])
  then show ?thesis unfolding run
    by (cases "shrinkWrapCycles fac rSize n I (shrinkWrapDefaults p) 0
          (shrinkWrapInit fac rSize n I (shrinkWrapDefaults p))") simp_all
qed

lemma cudaShrinkWrap_projr:
  assumes "0 < W" and "0 < H"
  shows "cudaShrinkWrap ndebug fac (Some d) W H p = Inr (projr (cudaShrinkWrap ndebug fac (Some d) W H p)) \<and>
         Suc 0 < length (states (projr (cudaShrinkWrap ndebug fac (Some d) W H p))) \<and>
         states (projr (cudaShrinkWrap ndebug fac (Some d) W H p)) ! 0 =
           cudaShrinkWrapInit fac W H ((W * H) mod 2 ^ 32) (map (\<lambda>i. d ! i) [0..<(W * H) mod 2 ^ 32])
             (cudaShrinkWrapDefaults p)"
proof -
  note run = cudaShrinkWrap_valid [OF assms, of ndebug fac d p]
  have r: "0 < rnCycles (cudaShrinkWrapDefaults p)" by (simp add: cudaShrinkWrapDefaults_def)
  have "cudaShrinkWrapCycles fac W H ((W * H) mod 2 ^ 32) (map (\<lambda>i. d ! i) [0..<(W * H) mod 2 ^ 32]) (cudaShrinkWrapDefaults p) 0
          (cudaShrinkWrapInit fac W H ((W * H) mod 2 ^ 32) (map (\<lambda>i. d ! i) [0..<(W * H) mod 2 ^ 32]) (cudaShrinkWrapDefaults p)) \<noteq> []"
    by (rule cudaShrinkWrapCycles_some [OF r])
  then show ?thesis unfolding run
    by (cases "cudaShrinkWrapCycles fac W H ((W * H) mod 2 ^ 32) (map (\<lambda>i. d ! i) [0..<(W * H) mod 2 ^ 32]) (cudaShrinkWrapDefaults p) 0
          (cudaShrinkWrapInit fac W H ((W * H) mod 2 ^ 32) (map (\<lambda>i. d ! i) [0..<(W * H) mod 2 ^ 32]) (cudaShrinkWrapDefaults p))") simp_all
qed

lemma count_2_1: "countElements False [2, 1] 1 = Inr 2"
  by (simp add: assertion_def)

lemma default_cycles: "0 < rnCycles (shrinkWrapDefaults defaultParameters)"
  by (simp add: shrinkWrapDefaults_def defaultParameters_def)




lemma sigma_step_bounds:
  fixes c s :: real
  shows "3 / 2 \<le> max (3 / 2) ((1 - c) * s)"
    and "0 < c \<Longrightarrow> c < 1 \<Longrightarrow> 3 / 2 \<le> s \<Longrightarrow> max (3 / 2) ((1 - c) * s) \<le> s"
proof -
  show "3 / 2 \<le> max (3 / 2) ((1 - c) * s)" by simp
  assume c: "0 < c" "c < 1" and s: "3 / 2 \<le> s"
  have "0 \<le> c * s" using c s by simp
  then have "(1 - c) * s \<le> s" by (simp add: algebra_simps)
  then show "max (3 / 2) ((1 - c) * s) \<le> s" using s by simp
qed

lemma shrinkWrap_sigma_step:
  assumes run: "shrinkWrap ndebug fac rIntensity rSize p0 = Inr out" and k: "Suc k < length (states out)"
  shows "sigma (states out ! Suc k) =
           max 1.5 ((1 - rSigmaChange (shrinkWrapDefaults p0)) * sigma (states out ! k))"
proof -
  from k have "states out \<noteq> []" by auto
  from shrinkWrap_states [OF run this] obtain I n where
    st: "states out = shrinkWrapInit fac rSize n I (shrinkWrapDefaults p0) #
                      shrinkWrapCycles fac rSize n I (shrinkWrapDefaults p0) 0
                        (shrinkWrapInit fac rSize n I (shrinkWrapDefaults p0))"
    by blast
  have klen: "k < length (shrinkWrapCycles fac rSize n I (shrinkWrapDefaults p0) 0
                        (shrinkWrapInit fac rSize n I (shrinkWrapDefaults p0)))"
    using k st by simp
  from shrinkWrapCycles_nth [OF refl klen]
  have "states out ! Suc k = hioLoop fac rSize n I (shrinkWrapDefaults p0) 0
       (updateMask fac (rSize ! 0) (rSize ! 1) n (shrinkWrapDefaults p0) (states out ! k))"
    by (simp add: st)
  then show ?thesis using hioLoop_keeps [OF refl] by (simp add: updateMask_sigma)
qed

lemma shrinkWrap_sigma_start:
  assumes run: "shrinkWrap ndebug fac rIntensity rSize p0 = Inr out" and ne: "states out \<noteq> []"
  shows "sigma (states out ! 0) = rSigma0 (shrinkWrapDefaults p0)"
  using shrinkWrap_states [OF run ne] by (auto simp: shrinkWrapInit_def Let_def)

lemma cudaShrinkWrap_sigma_step:
  assumes run: "cudaShrinkWrap ndebug fac rIoData W H p0 = Inr out" and k: "Suc k < length (states out)"
  shows "sigma (states out ! Suc k) =
           max 1.5 ((1 - rSigmaChange (cudaShrinkWrapDefaults p0)) * sigma (states out ! k))"
proof -
  from cudaShrinkWrap_run [OF run] obtain I where
    st: "states out = cudaShrinkWrapInit fac W H ((W * H) mod 2 ^ 32) I (cudaShrinkWrapDefaults p0) #
           cudaShrinkWrapCycles fac W H ((W * H) mod 2 ^ 32) I (cudaShrinkWrapDefaults p0) 0
             (cudaShrinkWrapInit fac W H ((W * H) mod 2 ^ 32) I (cudaShrinkWrapDefaults p0))"
    by blast
  have klen: "k < length (cudaShrinkWrapCycles fac W H ((W * H) mod 2 ^ 32) I (cudaShrinkWrapDefaults p0) 0
             (cudaShrinkWrapInit fac W H ((W * H) mod 2 ^ 32) I (cudaShrinkWrapDefaults p0)))"
    using k st by simp
  from cudaShrinkWrapCycles_nth [OF refl klen]
  have "states out ! Suc k = hioLoop fac [W, H] ((W * H) mod 2 ^ 32) I (cudaShrinkWrapDefaults p0) 0
       (cudaUpdateMask fac W H ((W * H) mod 2 ^ 32) (cudaShrinkWrapDefaults p0) k (states out ! k))"
    by (simp add: st)
  then show ?thesis using hioLoop_keeps [OF refl] by (simp add: cudaUpdateMask_sigma)
qed

lemma cudaShrinkWrap_sigma_start:
  assumes run: "cudaShrinkWrap ndebug fac rIoData W H p0 = Inr out"
  shows "sigma (states out ! 0) = rSigma0 (cudaShrinkWrapDefaults p0)"
  using cudaShrinkWrap_run [OF run] by (auto simp: cudaShrinkWrapInit_def Let_def)

text \<open>
  Claim C9. On both paths sigma is \<^verbatim>\<open>rSigma0\<close> (after defaulting) before the first
  cycle, and from the start of a cycle to its end it changes exactly by
  \<open>sigma \<leftarrow> max(1.5, (1 - rSigmaChange) \<cdot> sigma)\<close>. Hence after any update sigma is at
  least 1.5, and for \<open>0 < rSigmaChange < 1\<close> it does not increase in a cycle that
  starts with sigma at or above 1.5.
\<close>

theorem sigma_schedule:
  "(shrinkWrap ndebug fac rIntensity rSize p0 = Inr out \<longrightarrow> states out \<noteq> [] \<longrightarrow>
      sigma (states out ! 0) = rSigma0 (shrinkWrapDefaults p0) \<and>
      (\<forall>k. Suc k < length (states out) \<longrightarrow>
         sigma (states out ! Suc k) =
           max 1.5 ((1 - rSigmaChange (shrinkWrapDefaults p0)) * sigma (states out ! k)) \<and>
         1.5 \<le> sigma (states out ! Suc k) \<and>
         (0 < rSigmaChange (shrinkWrapDefaults p0) \<and> rSigmaChange (shrinkWrapDefaults p0) < 1 \<and>
          1.5 \<le> sigma (states out ! k) \<longrightarrow> sigma (states out ! Suc k) \<le> sigma (states out ! k)))) \<and>
   (cudaShrinkWrap ndebug fac rIoData W H p0 = Inr out' \<longrightarrow>
      sigma (states out' ! 0) = rSigma0 (cudaShrinkWrapDefaults p0) \<and>
      (\<forall>k. Suc k < length (states out') \<longrightarrow>
         sigma (states out' ! Suc k) =
           max 1.5 ((1 - rSigmaChange (cudaShrinkWrapDefaults p0)) * sigma (states out' ! k)) \<and>
         1.5 \<le> sigma (states out' ! Suc k) \<and>
         (0 < rSigmaChange (cudaShrinkWrapDefaults p0) \<and> rSigmaChange (cudaShrinkWrapDefaults p0) < 1 \<and>
          1.5 \<le> sigma (states out' ! k) \<longrightarrow> sigma (states out' ! Suc k) \<le> sigma (states out' ! k))))"
proof (intro conjI impI allI)
  assume run: "shrinkWrap ndebug fac rIntensity rSize p0 = Inr out" and ne: "states out \<noteq> []"
  show "sigma (states out ! 0) = rSigma0 (shrinkWrapDefaults p0)"
    by (rule shrinkWrap_sigma_start [OF run ne])
  fix k assume k: "Suc k < length (states out)"
  note step = shrinkWrap_sigma_step [OF run k]
  show "sigma (states out ! Suc k) =
           max 1.5 ((1 - rSigmaChange (shrinkWrapDefaults p0)) * sigma (states out ! k))"
    by (rule step)
  show "1.5 \<le> sigma (states out ! Suc k)" unfolding step by simp
  assume "0 < rSigmaChange (shrinkWrapDefaults p0) \<and> rSigmaChange (shrinkWrapDefaults p0) < 1 \<and>
          1.5 \<le> sigma (states out ! k)"
  then show "sigma (states out ! Suc k) \<le> sigma (states out ! k)"
    unfolding step using sigma_step_bounds(2) by simp
next
  assume run: "cudaShrinkWrap ndebug fac rIoData W H p0 = Inr out'"
  show "sigma (states out' ! 0) = rSigma0 (cudaShrinkWrapDefaults p0)"
    by (rule cudaShrinkWrap_sigma_start [OF run])
  fix k assume k: "Suc k < length (states out')"
  note step = cudaShrinkWrap_sigma_step [OF run k]
  show "sigma (states out' ! Suc k) =
           max 1.5 ((1 - rSigmaChange (cudaShrinkWrapDefaults p0)) * sigma (states out' ! k))"
    by (rule step)
  show "1.5 \<le> sigma (states out' ! Suc k)" unfolding step by simp
  assume "0 < rSigmaChange (cudaShrinkWrapDefaults p0) \<and> rSigmaChange (cudaShrinkWrapDefaults p0) < 1 \<and>
          1.5 \<le> sigma (states out' ! k)"
  then show "sigma (states out' ! Suc k) \<le> sigma (states out' ! k)"
    unfolding step using sigma_step_bounds(2) by simp
qed

theorem sigma_schedule_witness:
  "sigma (states (projr (shrinkWrap False plainFacilities (Some [1, 10]) [2, 1] defaultParameters)) ! 0) = 3 \<and>
   sigma (states (projr (shrinkWrap False plainFacilities (Some [1, 10]) [2, 1] defaultParameters)) ! Suc 0) = 297 / 100 \<and>
   sigma (states (projr (cudaShrinkWrap False plainFacilities (Some [1, 10]) 2 1 defaultParameters)) ! 0) = 3 \<and>
   sigma (states (projr (cudaShrinkWrap False plainFacilities (Some [1, 10]) 2 1 defaultParameters)) ! Suc 0) = 297 / 100"
proof -
  define Rcpu where "Rcpu = shrinkWrap False plainFacilities (Some [1, 10]) [2, 1] defaultParameters"
  define Rcuda where "Rcuda = cudaShrinkWrap False plainFacilities (Some [1, 10]) 2 1 defaultParameters"
  have a: "Rcpu = Inr (projr Rcpu)" "Suc 0 < length (states (projr Rcpu))"
    using shrinkWrap_projr [OF _ count_2_1 default_cycles, of plainFacilities "[1, 10]"]
    by (simp_all add: Rcpu_def)
  have b: "Rcuda = Inr (projr Rcuda)" "Suc 0 < length (states (projr Rcuda))"
    using cudaShrinkWrap_projr [of 2 1 False plainFacilities "[1, 10]" defaultParameters]
    by (simp_all add: Rcuda_def)
  have ne: "states (projr Rcpu) \<noteq> []" using a(2) by auto
  have s0: "rSigma0 defaultParameters = 3" and c: "rSigmaChange defaultParameters = 1 / 100"
    by (simp_all add: defaultParameters_def)
  note inst = sigma_schedule [where ndebug = False and fac = plainFacilities and rIntensity = "Some [1, 10]"
      and rSize = "[2, 1]" and ?p0.0 = defaultParameters
      and out = "projr Rcpu" and rIoData = "Some [1, 10]" and W = 2 and H = 1
      and out' = "projr Rcuda", folded Rcpu_def Rcuda_def,
      unfolded cpu_defaults_default cuda_defaults_default s0 c]
  from inst a ne have cpu0: "sigma (states (projr Rcpu) ! 0) = 3"
    and cpu1: "sigma (states (projr Rcpu) ! Suc 0) = max 1.5 ((1 - 1 / 100) * sigma (states (projr Rcpu) ! 0))"
    by blast+
  from inst b have cuda0: "sigma (states (projr Rcuda) ! 0) = 3"
    and cuda1: "sigma (states (projr Rcuda) ! Suc 0) = max 1.5 ((1 - 1 / 100) * sigma (states (projr Rcuda) ! 0))"
    by blast+
  have "sigma (states (projr Rcpu) ! Suc 0) = 297 / 100" unfolding cpu1 cpu0 by simp
  moreover have "sigma (states (projr Rcuda) ! Suc 0) = 297 / 100" unfolding cuda1 cuda0 by simp
  ultimately show ?thesis using cpu0 cuda0 unfolding Rcpu_def Rcuda_def by blast
qed

text \<open>
  Defaulting. The CUDA path takes every sentinel as the documented default. The CPU
  path does so for every parameter but \<^verbatim>\<open>rnCycles\<close>.
\<close>

lemma cuda_defaults_documented:
  "cudaShrinkWrapDefaults (documentedDefaults p) = cudaShrinkWrapDefaults p"
  by (simp add: cudaShrinkWrapDefaults_def documentedDefaults_def)

lemma cudaShrinkWrap_takes_documented_defaults:
  "cudaShrinkWrap ndebug fac rIoData W H (documentedDefaults p) = cudaShrinkWrap ndebug fac rIoData W H p"
  by (simp add: cudaShrinkWrap_def cuda_defaults_documented)

lemma cpu_defaults_documented:
  "rnCycles p \<noteq> 0 \<Longrightarrow> shrinkWrapDefaults (documentedDefaults p) = shrinkWrapDefaults p"
  by (simp add: shrinkWrapDefaults_def documentedDefaults_def)

lemma shrinkWrap_takes_documented_defaults:
  assumes "rnCycles p \<noteq> 0"
  shows "shrinkWrap ndebug fac rIntensity rSize (documentedDefaults p) =
         shrinkWrap ndebug fac rIntensity rSize p"
  unfolding shrinkWrap_def cpu_defaults_documented [OF assms] by (rule refl)

lemma countElements_two:
  "0 < W \<Longrightarrow> 0 < H \<Longrightarrow> countElements ndebug [W, H] 1 = Inr ((W mod 2 ^ 32 * H) mod 2 ^ 32)"
  by (simp add: assertion_def)

lemma copy_there_and_back:
  assumes "n \<le> length I"
  shows "copyFromRealPart I (copyToRealPart d I n) n = I"
proof -
  have "map (\<lambda>i. fst ((map (\<lambda>i. (I ! i, 0 :: real)) [0..<n] @ drop n d) ! i)) [0..<n] = map (\<lambda>i. I ! i) [0..<n]"
    by (rule map_cong [OF refl]) (simp add: nth_append)
  also have "\<dots> = take n I" using assms by (intro nth_equalityI) simp_all
  finally show ?thesis by (simp add: copyFromRealPart_def copyToRealPart_def)
qed

lemma shrinkWrapInit_curData:
  "curData (shrinkWrapInit fac rSize n I p) =
     copyToRealPart (toRealSpace fac rSize (copyToRealPart (replicate n (0, 0)) I n)) I n"
  by (simp add: shrinkWrapInit_def Let_def)

text \<open>
  Claim C2, as the code has it. On the CPU path a call with \<^verbatim>\<open>rnCycles = 0\<close> on an
  image with positive width and height returns status 0 after no outer cycle at all
  (the only state is the one before the loop) and hands the image back as it was,
  while the same call with the documented defaults passed explicitly, where
  \<^verbatim>\<open>rnCycles\<close> is 20, runs at least one cycle.
\<close>

theorem shrinkWrap_nCycles_zero_runs_no_cycle:
  assumes W: "0 < W" and H: "0 < H"
  shows "\<exists>out0 out20.
           shrinkWrap ndebug fac (Some I) [W, H] (p\<lparr>rnCycles := 0\<rparr>) = Inr out0 \<and>
           status out0 = 0 \<and> length (states out0) = 1 \<and>
           (W * H < 2 ^ 32 \<and> length I = W * H \<longrightarrow> ioData out0 = Some I) \<and>
           shrinkWrap ndebug fac (Some I) [W, H] (documentedDefaults (p\<lparr>rnCycles := 0\<rparr>)) = Inr out20 \<and>
           rnCycles (documentedDefaults (p\<lparr>rnCycles := 0\<rparr>)) = 20 \<and>
           2 \<le> length (states out20)"
proof -
  define n where "n = (W mod 2 ^ 32 * H) mod 2 ^ 32"
  have cnt: "countElements ndebug [W, H] 1 = Inr n"
    unfolding n_def by (rule countElements_two [OF W H])
  define q0 where "q0 = shrinkWrapDefaults (p\<lparr>rnCycles := 0\<rparr>)"
  define q20 where "q20 = shrinkWrapDefaults (documentedDefaults (p\<lparr>rnCycles := 0\<rparr>))"
  have r0: "rnCycles q0 = 0" by (simp add: q0_def shrinkWrapDefaults_def)
  have r20: "rnCycles q20 = 20" by (simp add: q20_def shrinkWrapDefaults_def documentedDefaults_def)
  define out0 where "out0 = \<lparr> status = 0,
           ioData = Some (copyFromRealPart I (curData (last (shrinkWrapInit fac [W, H] n I q0 #
                        shrinkWrapCycles fac [W, H] n I q0 0 (shrinkWrapInit fac [W, H] n I q0)))) n),
           nAllocated = 3,
           states = shrinkWrapInit fac [W, H] n I q0 #
                      shrinkWrapCycles fac [W, H] n I q0 0 (shrinkWrapInit fac [W, H] n I q0) \<rparr>"
  define out20 where "out20 = \<lparr> status = 0,
           ioData = Some (copyFromRealPart I (curData (last (shrinkWrapInit fac [W, H] n I q20 #
                        shrinkWrapCycles fac [W, H] n I q20 0 (shrinkWrapInit fac [W, H] n I q20)))) n),
           nAllocated = 3,
           states = shrinkWrapInit fac [W, H] n I q20 #
                      shrinkWrapCycles fac [W, H] n I q20 0 (shrinkWrapInit fac [W, H] n I q20) \<rparr>"
  have run0: "shrinkWrap ndebug fac (Some I) [W, H] (p\<lparr>rnCycles := 0\<rparr>) = Inr out0"
    unfolding out0_def q0_def by (rule shrinkWrap_run [OF _ cnt]) simp
  have run20: "shrinkWrap ndebug fac (Some I) [W, H] (documentedDefaults (p\<lparr>rnCycles := 0\<rparr>)) = Inr out20"
    unfolding out20_def q20_def by (rule shrinkWrap_run [OF _ cnt]) simp
  have none: "shrinkWrapCycles fac [W, H] n I q0 0 (shrinkWrapInit fac [W, H] n I q0) = []"
    by (rule shrinkWrapCycles_none [OF r0])
  have some: "shrinkWrapCycles fac [W, H] n I q20 0 (shrinkWrapInit fac [W, H] n I q20) \<noteq> []"
    by (rule shrinkWrapCycles_some) (simp add: r20)
  have len0: "length (states out0) = 1" by (simp add: out0_def none)
  have len20: "2 \<le> length (states out20)"
    using some by (cases "shrinkWrapCycles fac [W, H] n I q20 0 (shrinkWrapInit fac [W, H] n I q20)")
      (simp_all add: out20_def)
  have same: "ioData out0 = Some I" if "W * H < 2 ^ 32 \<and> length I = W * H"
  proof -
    have "W < 2 ^ 32"
    proof (rule ccontr)
      assume "\<not> W < 2 ^ 32"
      then have "2 ^ 32 * 1 \<le> W * H" using H by (intro mult_le_mono) simp_all
      then show False using that by simp
    qed
    then have "n = W * H" using that by (simp add: n_def)
    then have "n \<le> length I" using that by simp
    then show ?thesis
      by (simp add: out0_def none shrinkWrapInit_curData copy_there_and_back)
  qed
  have d20: "rnCycles (documentedDefaults (p\<lparr>rnCycles := 0\<rparr>)) = 20"
    by (simp add: documentedDefaults_def)
  show ?thesis
    using run0 run20 len0 len20 same d20
    by (intro exI [of _ out0] exI [of _ out20]) (simp add: out0_def)
qed

theorem shrinkWrap_nCycles_zero_runs_no_cycle_witness:
  "status (projr (shrinkWrap False plainFacilities (Some [1, 10]) [2, 1] (defaultParameters\<lparr>rnCycles := 0\<rparr>))) = 0 \<and>
   length (states (projr (shrinkWrap False plainFacilities (Some [1, 10]) [2, 1] (defaultParameters\<lparr>rnCycles := 0\<rparr>)))) = 1 \<and>
   ioData (projr (shrinkWrap False plainFacilities (Some [1, 10]) [2, 1] (defaultParameters\<lparr>rnCycles := 0\<rparr>))) = Some [1, 10] \<and>
   documentedDefaults (defaultParameters\<lparr>rnCycles := 0\<rparr>) = defaultParameters \<and>
   2 \<le> length (states (projr (shrinkWrap False plainFacilities (Some [1, 10]) [2, 1] defaultParameters)))"
proof -
  have d: "documentedDefaults (defaultParameters\<lparr>rnCycles := 0\<rparr>) = defaultParameters"
    by (simp add: documentedDefaults_def defaultParameters_def)
  from shrinkWrap_nCycles_zero_runs_no_cycle [of 2 1 False plainFacilities "[1, 10]" defaultParameters, unfolded d]
  obtain out0 out20 where
    r0: "shrinkWrap False plainFacilities (Some [1, 10]) [2, 1] (defaultParameters\<lparr>rnCycles := 0\<rparr>) = Inr out0"
    and s: "status out0 = 0" and l: "length (states out0) = 1"
    and i: "(2::nat) * 1 < 2 ^ 32 \<and> length [1, 10 :: real] = 2 * 1 \<longrightarrow> ioData out0 = Some [1, 10]"
    and r20: "shrinkWrap False plainFacilities (Some [1, 10]) [2, 1] defaultParameters = Inr out20"
    and l20: "2 \<le> length (states out20)"
    by auto
  have "ioData out0 = Some [1, 10]" using i by simp
  then show ?thesis using s l l20 d unfolding r0 r20 by simp
qed




end
